theory Spec2Isabelle
  imports Main "HOL-Library.Sublist"
begin

section \<open>Strings\<close>

text \<open>
  A path is a \<open>string\<close>: the list of its characters, each a byte (a character
  beyond ASCII is the bytes of its UTF-8 form). The operations of the JavaScript
  string type that \<open>src/index.ts\<close> uses are written out on lists. Characters are
  compared through their code (\<open>of_char\<close>), so a class such as \<open>a-z\<close> is the
  interval of codes 97 to 122.
\<close>

definition code :: "char \<Rightarrow> nat" where
  "code c = of_char c"

definition between :: "nat \<Rightarrow> nat \<Rightarrow> char \<Rightarrow> bool" where
  "between lo hi c = (lo \<le> code c \<and> code c \<le> hi)"

text \<open>\<open>s.charAt(s.length - 1)\<close>: the last character, or the empty string when
  \<open>s\<close> is empty (the index is then \<open>-1\<close>, out of range).\<close>

definition lastCharAt :: "string \<Rightarrow> string" where
  "lastCharAt s = (case rev s of [] \<Rightarrow> [] | c # _ \<Rightarrow> [c])"

text \<open>\<open>s.includes(t)\<close>: \<open>t\<close> occurs in \<open>s\<close> as a contiguous substring.\<close>

fun includesStr :: "string \<Rightarrow> string \<Rightarrow> bool" where
  "includesStr [] t = (t = [])"
| "includesStr (c # cs) t = (prefix t (c # cs) \<or> includesStr cs t)"

text \<open>\<open>s.indexOf(t)\<close>: the position of the first occurrence, \<open>-1\<close> when there is
  none.\<close>

fun indexOf :: "string \<Rightarrow> string \<Rightarrow> int" where
  "indexOf [] t = (if t = [] then 0 else - 1)"
| "indexOf (c # cs) t =
     (if prefix t (c # cs) then 0
      else (let i = indexOf cs t in if i < 0 then - 1 else i + 1))"

text \<open>\<open>s.slice(0, e)\<close>: the characters before position \<open>e\<close>; a negative \<open>e\<close>
  counts from the end.\<close>

definition slice0 :: "string \<Rightarrow> int \<Rightarrow> string" where
  "slice0 s e = (if e < 0 then take (nat (int (length s) + e)) s else take (nat e) s)"

text \<open>\<open>s.replace(t, '')\<close> with a string pattern: the first occurrence of \<open>t\<close> is
  deleted, the rest of \<open>s\<close> is kept. (The only replacement the program passes is the
  empty string.)\<close>

fun replaceEmpty :: "string \<Rightarrow> string \<Rightarrow> string" where
  "replaceEmpty [] t = []"
| "replaceEmpty (c # cs) t =
     (if prefix t (c # cs) then drop (length t) (c # cs) else c # replaceEmpty cs t)"

text \<open>\<open>s.trim()\<close>: white space is removed at both ends. The white space characters
  with a code below 128 are TAB, LF, VT, FF, CR and the space; the model trims
  these. (Of them only the space can occur in a name that \<open>validateFile\<close> returns,
  and no white space beyond ASCII can.)\<close>

definition isWhite :: "char \<Rightarrow> bool" where
  "isWhite c = (between 9 13 c \<or> code c = 32)"

definition trim :: "string \<Rightarrow> string" where
  "trim s = rev (dropWhile isWhite (rev (dropWhile isWhite s)))"

section \<open>Configuration and constants of index.ts\<close>

record DirectoriesConfig =
  root :: string
  playlists :: "string option"
  soundboards :: "string option"

record KenkuRemoteConfig =
  host :: string
  port :: string

definition DEFAULT_PLAYLIST_DIR :: string where
  "DEFAULT_PLAYLIST_DIR = ''Playlists''"

definition DEFAULT_SOUNDBOARDS_DIR :: string where
  "DEFAULT_SOUNDBOARDS_DIR = ''Soundboards''"

definition DEFAULT_KENKU_CONFIG :: KenkuRemoteConfig where
  "DEFAULT_KENKU_CONFIG = \<lparr>host = ''127.0.0.1'', port = ''3333''\<rparr>"

definition JOB_FREQUENCY :: nat where
  "JOB_FREQUENCY = 500"

text \<open>\<open>x || d\<close> on an optional string: \<open>d\<close> when \<open>x\<close> is undefined or the empty
  string (both are falsy), \<open>x\<close> otherwise.\<close>

definition orDefault :: "string option \<Rightarrow> string \<Rightarrow> string" where
  "orDefault x d = (case x of None \<Rightarrow> d | Some s \<Rightarrow> if s = [] then d else s)"

definition playlistsDir :: "DirectoriesConfig \<Rightarrow> string" where
  "playlistsDir directories = orDefault (playlists directories) DEFAULT_PLAYLIST_DIR"

definition soundboardsDir :: "DirectoriesConfig \<Rightarrow> string" where
  "soundboardsDir directories = orDefault (soundboards directories) DEFAULT_SOUNDBOARDS_DIR"

section \<open>The path patterns\<close>

text \<open>
  \<open>folderRegex\<close> is \<open>[a-zA-Z0-9 -]+\<close>: letters, digits, the space and the hyphen
  (a \<open>-\<close> that closes the class stands for itself).

  \<open>fileRegex\<close> is \<open>[a-zA-Z0-9 -\.]+\<close>. Here the \<open>-\<close> stands between the space and
  the escaped dot, so it builds the range from the space (code 32) to the dot
  (code 46): \<open>!"#$%&'()*+,\<close> belong to the class together with the space, the hyphen
  and the dot.
\<close>

definition folderChar :: "char \<Rightarrow> bool" where
  "folderChar c =
     (between 97 122 c \<or> between 65 90 c \<or> between 48 57 c \<or> code c = 32 \<or> code c = 45)"

definition fileChar :: "char \<Rightarrow> bool" where
  "fileChar c = (between 97 122 c \<or> between 65 90 c \<or> between 48 57 c \<or> between 32 46 c)"

text \<open>
  \<open>validateDirectory\<close> and \<open>validateFile\<close> build the source of a regular expression
  by interpolating the configured strings, and match the path against it. The model
  matches a configured string as the literal sequence of its characters, which is
  what the regular expression does when the string holds none of the characters
  \<open>\ ^ $ . * + ? ( ) [ ] { } |\<close>; \<open>plainDirectories\<close> says so, and the theorems on
  the patterns assume it.
\<close>

definition regexMeta :: "char \<Rightarrow> bool" where
  "regexMeta c =
     (code c \<in> set [92, 94, 36, 46, 42, 43, 63, 40, 41, 91, 93, 123, 125, 124])"

definition plainString :: "string \<Rightarrow> bool" where
  "plainString s = list_all (\<lambda>c. \<not> regexMeta c) s"

definition plainDirectories :: "DirectoriesConfig \<Rightarrow> bool" where
  "plainDirectories directories =
     (plainString (root directories) \<and> plainString (playlistsDir directories)
      \<and> plainString (soundboardsDir directories))"

text \<open>A literal at the start of the text: the rest of the text after it.\<close>

definition literal :: "string \<Rightarrow> string \<Rightarrow> string option" where
  "literal l s = (if prefix l s then Some (drop (length l) s) else None)"

text \<open>
  The tail of the directory pattern after one alternative \<open>sub\<close> of the group:
  \<open>sub/([a-zA-Z0-9 -]+)$\<close>. The captured name is the whole rest of the path.
\<close>

definition directoryTail :: "string \<Rightarrow> string \<Rightarrow> string option" where
  "directoryTail sub s =
     (case literal (sub @ ''/'') s of
        None \<Rightarrow> None
      | Some n \<Rightarrow> if n \<noteq> [] \<and> list_all folderChar n then Some n else None)"

text \<open>
  The tail of the file pattern after one alternative: \<open>sub/[a-zA-Z0-9 -]+/([a-zA-Z0-9 -\.]+)$\<close>.
  The folder class does not hold \<open>/\<close>, so the only run of folder characters that a
  \<open>/\<close> can follow is the longest one.
\<close>

definition fileTail :: "string \<Rightarrow> string \<Rightarrow> string option" where
  "fileTail sub s =
     (case literal (sub @ ''/'') s of
        None \<Rightarrow> None
      | Some t \<Rightarrow>
          (if takeWhile folderChar t = [] then None
           else (case literal ''/'' (dropWhile folderChar t) of
                   None \<Rightarrow> None
                 | Some f \<Rightarrow> if f \<noteq> [] \<and> list_all fileChar f then Some f else None)))"

text \<open>
  The group \<open>(playlists|soundboards)\<close> tries its first alternative, and the second
  one when the rest of the pattern fails after the first. The result is
  \<open>match[2]\<close>, or \<open>None\<close> for \<open>undefined\<close>.
\<close>

definition validateDirectory :: "DirectoriesConfig \<Rightarrow> string \<Rightarrow> string option" where
  "validateDirectory directories path =
     (case literal (root directories @ ''/'') path of
        None \<Rightarrow> None
      | Some s \<Rightarrow>
          (case directoryTail (playlistsDir directories) s of
             Some n \<Rightarrow> Some n
           | None \<Rightarrow> directoryTail (soundboardsDir directories) s))"

definition validateFile :: "DirectoriesConfig \<Rightarrow> string \<Rightarrow> string option" where
  "validateFile directories path =
     (case literal (root directories @ ''/'') path of
        None \<Rightarrow> None
      | Some s \<Rightarrow>
          (case fileTail (playlistsDir directories) s of
             Some f \<Rightarrow> Some f
           | None \<Rightarrow> fileTail (soundboardsDir directories) s))"

section \<open>Titles and URLs\<close>

definition removeFileType :: "string \<Rightarrow> string" where
  "removeFileType fileName =
     (let clean = (if includesStr fileName ''.''
                   then slice0 (trim fileName) (indexOf fileName ''.'')
                   else trim fileName)
      in if length (trim clean) = 0 then ''UnknownTitle'' else clean)"

text \<open>
  \<open>encodeURI\<close> keeps letters, digits and \<open>; / ? : @ & = + $ , - _ . ! ~ * ' ( ) #\<close>,
  and writes every other character as \<open>%\<close> and the two upper-case hexadecimal
  digits of its code. (A string is taken as the bytes of its UTF-8 form, which is
  what \<open>encodeURI\<close> escapes; a string that is not well-formed makes \<open>encodeURI\<close>
  throw and is outside the model.)
\<close>

definition hexDigit :: "nat \<Rightarrow> char" where
  "hexDigit n = ''0123456789ABCDEF'' ! (n mod 16)"

definition uriKept :: "char \<Rightarrow> bool" where
  "uriKept c =
     (between 97 122 c \<or> between 65 90 c \<or> between 48 57 c
      \<or> code c \<in> set [59, 47, 63, 58, 64, 38, 61, 43, 36, 44,
                        45, 95, 46, 33, 126, 42, 39, 40, 41, 35])"

definition escape :: "char \<Rightarrow> string" where
  "escape c = [CHR ''%'', hexDigit (code c div 16), hexDigit (code c mod 16)]"

definition encodeURI :: "string \<Rightarrow> string" where
  "encodeURI s = concat (map (\<lambda>c. if uriKept c then [c] else escape c) s)"

definition prepareFilePath :: "string \<Rightarrow> string" where
  "prepareFilePath path = ''file://'' @ encodeURI path"

definition cleanUrl :: "string \<Rightarrow> string" where
  "cleanUrl path = (if lastCharAt path \<noteq> ''/'' then path else take (length path - 1) path)"

section \<open>kenku.ts: the remote client\<close>

datatype Method = Get | Put | Post

datatype json =
    JNull
  | JBool bool
  | JNumber int
  | JString string
  | JArray "json list"
  | JObject "(string \<times> json) list"

record request =
  req_path :: string
  req_method :: Method
  req_body :: "json option"

text \<open>
  What \<open>fetch\<close> resolves to: a status and the outcome of \<open>response.json()\<close>, which
  is the decoded body, or an error (\<open>Inl\<close>) when the body is not JSON.
\<close>

record Response =
  status :: nat
  decoded :: "string + json"

text \<open>
  The errors a call can end with: \<open>fetch\<close> rejected, \<open>response.json()\<close> rejected,
  the \<open>Error\<close> that \<open>callKenku\<close> throws itself, whose message is the JSON text
  of the decoded body, or an \<open>Error\<close> that the driver throws with a message.
\<close>

datatype failure =
    FetchRejected string
  | JsonRejected string
  | KenkuError json
  | Thrown string

text \<open>
  What the program does to the outside, in order: a request handed to \<open>fetch\<close>
  (with its URL), a pause, the start of the periodic job and of the watcher.
\<close>

datatype effect =
    Fetch string request
  | Delay nat
  | SetInterval nat
  | Watch string

text \<open>The network: what \<open>fetch\<close> answers to a request, given all that happened before.
  \<open>Inl\<close> is a rejected \<open>fetch\<close>.\<close>

type_synonym network = "effect list \<Rightarrow> string \<Rightarrow> request \<Rightarrow> string + Response"

text \<open>The state of the process: the module variables \<open>queue\<close> and \<open>ACTIVATED\<close> of
  index.ts, and the trace of effects so far.\<close>

datatype action = Add | AddDir | Unlink | UnlinkDir

record event =
  ev_action :: action
  ev_path :: string

record world =
  queue :: "event list"
  ACTIVATED :: bool
  effects :: "effect list"

definition url :: "string \<Rightarrow> string \<Rightarrow> string" where
  "url h p = ''http://'' @ h @ '':'' @ p @ ''/v1''"

text \<open>
  \<open>callKenku\<close> hands the request to \<open>fetch\<close>, decodes the body, and throws when the
  status is 400 or more. (The \<open>console.log\<close> lines are left out, here and below.)
\<close>

type_synonym call = "world \<Rightarrow> (failure + json) \<times> world"

definition callKenku :: "network \<Rightarrow> KenkuRemoteConfig \<Rightarrow> request \<Rightarrow> call" where
  "callKenku net config req w =
     (let target = url (host config) (port config) @ ''/'' @ req_path req;
          w' = w\<lparr>effects := effects w @ [Fetch target req]\<rparr>
      in case net (effects w) target req of
           Inl e \<Rightarrow> (Inl (FetchRejected e), w')
         | Inr response \<Rightarrow>
             (case decoded response of
                Inl e \<Rightarrow> (Inl (JsonRejected e), w')
              | Inr data \<Rightarrow>
                  if status response \<ge> 400 then (Inl (KenkuError data), w')
                  else (Inr data, w')))"

definition addPlaylist :: "network \<Rightarrow> KenkuRemoteConfig \<Rightarrow> json \<Rightarrow> call" where
  "addPlaylist net config body =
     callKenku net config \<lparr>req_path = ''playlist/add'', req_method = Put, req_body = Some body\<rparr>"

definition addTrack :: "network \<Rightarrow> KenkuRemoteConfig \<Rightarrow> json \<Rightarrow> call" where
  "addTrack net config body =
     callKenku net config
       \<lparr>req_path = ''playlist/addTrack'', req_method = Put, req_body = Some body\<rparr>"

definition removeTrack :: "network \<Rightarrow> KenkuRemoteConfig \<Rightarrow> json \<Rightarrow> call" where
  "removeTrack net config body =
     callKenku net config
       \<lparr>req_path = ''playlist/removeTrack'', req_method = Put, req_body = Some body\<rparr>"

definition removePlaylist :: "network \<Rightarrow> KenkuRemoteConfig \<Rightarrow> json \<Rightarrow> call" where
  "removePlaylist net config body =
     callKenku net config
       \<lparr>req_path = ''playlist/remove'', req_method = Put, req_body = Some body\<rparr>"

definition addSoundboard :: "network \<Rightarrow> KenkuRemoteConfig \<Rightarrow> json \<Rightarrow> call" where
  "addSoundboard net config body =
     callKenku net config
       \<lparr>req_path = ''soundboard/add'', req_method = Put, req_body = Some body\<rparr>"

definition addSound :: "network \<Rightarrow> KenkuRemoteConfig \<Rightarrow> json \<Rightarrow> call" where
  "addSound net config body =
     callKenku net config
       \<lparr>req_path = ''soundboard/addSound'', req_method = Put, req_body = Some body\<rparr>"

definition removeSound :: "network \<Rightarrow> KenkuRemoteConfig \<Rightarrow> json \<Rightarrow> call" where
  "removeSound net config body =
     callKenku net config
       \<lparr>req_path = ''soundboard/removeSound'', req_method = Put, req_body = Some body\<rparr>"

definition removeSoundboard :: "network \<Rightarrow> KenkuRemoteConfig \<Rightarrow> json \<Rightarrow> call" where
  "removeSoundboard net config body =
     callKenku net config
       \<lparr>req_path = ''soundboard/remove'', req_method = Put, req_body = Some body\<rparr>"

section \<open>index.ts: the queue worker\<close>

text \<open>
  \<open>handleQueue\<close> takes the event at the head of the queue, if there is one, and
  handles it by its action. A remote call is started and not awaited
  (\<open>.catch(console.log)\<close>): its request enters the trace and its outcome is dropped.
  \<open>ACTIVATED && fileToAdd\<close> holds when the gate is open and the validation gave a
  name, which is not the empty string.
\<close>

definition handleQueue ::
  "network \<Rightarrow> DirectoriesConfig \<Rightarrow> KenkuRemoteConfig \<Rightarrow> world \<Rightarrow> world" where
  "handleQueue net directories kenkuConfig w =
     (case queue w of
        [] \<Rightarrow> w
      | event # rest \<Rightarrow>
          (let w1 = w\<lparr>queue := rest\<rparr>; path = ev_path event in
           case ev_action event of
             Add \<Rightarrow>
               (case validateFile directories path of
                  None \<Rightarrow> w1
                | Some fileToAdd \<Rightarrow>
                    if ACTIVATED w1 \<and> fileToAdd \<noteq> [] then
                      (if includesStr path (playlistsDir directories) then
                         snd (addTrack net kenkuConfig
                           (JObject
                             [(''title'', JString (removeFileType fileToAdd)),
                              (''url'', JString (cleanUrl (prepareFilePath path))),
                              (''playlistUrl'',
                                 JString (cleanUrl (replaceEmpty path fileToAdd)))]) w1)
                       else
                         snd (addSound net kenkuConfig
                           (JObject
                             [(''title'', JString (removeFileType fileToAdd)),
                              (''url'', JString (cleanUrl (prepareFilePath path))),
                              (''soundboardUrl'',
                                 JString (cleanUrl (replaceEmpty path fileToAdd))),
                              (''fadeIn'', JNumber 500),
                              (''fadeOut'', JNumber 500),
                              (''loop'', JBool True),
                              (''volume'', JNumber 100)]) w1))
                    else w1)
           | AddDir \<Rightarrow>
               (case validateDirectory directories path of
                  None \<Rightarrow> w1
                | Some dirToAdd \<Rightarrow>
                    if ACTIVATED w1 \<and> dirToAdd \<noteq> [] then
                      (if includesStr path (playlistsDir directories) then
                         snd (addPlaylist net kenkuConfig
                           (JObject
                             [(''title'', JString dirToAdd),
                              (''url'', JString (cleanUrl path))]) w1)
                       else
                         snd (addSoundboard net kenkuConfig
                           (JObject
                             [(''title'', JString dirToAdd),
                              (''url'', JString (cleanUrl path))]) w1))
                    else w1)
           | Unlink \<Rightarrow>
               (case validateFile directories path of
                  None \<Rightarrow> w1
                | Some file \<Rightarrow>
                    if ACTIVATED w1 \<and> file \<noteq> [] then
                      (if includesStr path (playlistsDir directories) then
                         snd (removeTrack net kenkuConfig
                           (JObject
                             [(''trackUrl'', JString (cleanUrl (prepareFilePath path))),
                              (''playlistUrl'',
                                 JString (cleanUrl (replaceEmpty path file)))]) w1)
                       else
                         snd (removeSound net kenkuConfig
                           (JObject
                             [(''soundUrl'', JString (cleanUrl (prepareFilePath path))),
                              (''soundboardUrl'',
                                 JString (cleanUrl (replaceEmpty path file)))]) w1))
                    else w1)
           | UnlinkDir \<Rightarrow>
               (case validateDirectory directories path of
                  None \<Rightarrow> w1
                | Some dir \<Rightarrow>
                    if ACTIVATED w1 \<and> dir \<noteq> [] then
                      (if includesStr path (playlistsDir directories) then
                         snd (removePlaylist net kenkuConfig
                           (JObject [(''url'', JString (cleanUrl path))]) w1)
                       else
                         snd (removeSoundboard net kenkuConfig
                           (JObject [(''url'', JString (cleanUrl path))]) w1))
                    else w1)))"

section \<open>index.ts: purge\<close>

definition delay :: "nat \<Rightarrow> world \<Rightarrow> world" where
  "delay ms w = w\<lparr>effects := effects w @ [Delay ms]\<rparr>"

text \<open>
  One of the two loops of \<open>purge\<close>: each listed url is removed with an awaited
  call, followed by a pause of 500. A call that throws ends the loop and \<open>purge\<close>
  with it: the result is the error, if any, and the state reached.
\<close>

fun removeEach ::
  "(network \<Rightarrow> KenkuRemoteConfig \<Rightarrow> json \<Rightarrow> call) \<Rightarrow>
   network \<Rightarrow> KenkuRemoteConfig \<Rightarrow> string list \<Rightarrow> world \<Rightarrow> failure option \<times> world" where
  "removeEach remove net kenkuConfig [] w = (None, w)"
| "removeEach remove net kenkuConfig (u # us) w =
     (case remove net kenkuConfig (JObject [(''url'', JString u)]) w of
        (Inl e, w') \<Rightarrow> (Some e, w')
      | (Inr _, w') \<Rightarrow> removeEach remove net kenkuConfig us (delay 500 w'))"

text \<open>
  \<open>listPlaylists\<close> and \<open>listSoundboards\<close> are imported from kenku.ts, whose source
  does not define them. \<open>purge\<close> takes what the two awaited listings evaluate to:
  an error, or the urls of the listed entries in their order. The requests of the
  listings themselves are not part of the trace.
\<close>

definition purge ::
  "network \<Rightarrow> failure + string list \<Rightarrow> failure + string list \<Rightarrow> KenkuRemoteConfig \<Rightarrow>
   world \<Rightarrow> failure option \<times> world" where
  "purge net listedPlaylists listedSoundboards kenkuConfig w =
     (case listedPlaylists of
        Inl e \<Rightarrow> (Some e, w)
      | Inr playlistUrls \<Rightarrow>
          (case listedSoundboards of
             Inl e \<Rightarrow> (Some e, w)
           | Inr soundboardUrls \<Rightarrow>
               (case (if playlistUrls \<noteq> []
                      then removeEach removePlaylist net kenkuConfig playlistUrls w
                      else (None, w)) of
                  (Some e, w') \<Rightarrow> (Some e, w')
                | (None, w') \<Rightarrow>
                    (if soundboardUrls \<noteq> []
                     then removeEach removeSoundboard net kenkuConfig soundboardUrls w'
                     else (None, w')))))"

section \<open>index.ts: watch and the driver\<close>

text \<open>
  \<open>watch\<close> sets the gate to its argument, starts the periodic job and the watcher.
  From then on the runtime calls back: the watcher with \<open>ready\<close> or with one of the
  four events and a path, the timer with a tick.
\<close>

definition watch ::
  "bool \<Rightarrow> DirectoriesConfig \<Rightarrow> KenkuRemoteConfig \<Rightarrow> world \<Rightarrow> world" where
  "watch backfill directories kenkuConfig w =
     w\<lparr>ACTIVATED := backfill,
       effects := effects w @ [SetInterval JOB_FREQUENCY, Watch (root directories)]\<rparr>"

datatype signal = Ready | Emitted action string | Tick

fun callback ::
  "network \<Rightarrow> DirectoriesConfig \<Rightarrow> KenkuRemoteConfig \<Rightarrow> signal \<Rightarrow> world \<Rightarrow> world" where
  "callback net directories kenkuConfig Ready w = w\<lparr>ACTIVATED := True\<rparr>"
| "callback net directories kenkuConfig (Emitted a path) w =
     w\<lparr>queue := queue w @ [\<lparr>ev_action = a, ev_path = path\<rparr>]\<rparr>"
| "callback net directories kenkuConfig Tick w = handleQueue net directories kenkuConfig w"

fun callbacks ::
  "network \<Rightarrow> DirectoriesConfig \<Rightarrow> KenkuRemoteConfig \<Rightarrow> signal list \<Rightarrow> world \<Rightarrow> world" where
  "callbacks net directories kenkuConfig [] w = w"
| "callbacks net directories kenkuConfig (s # ss) w =
     callbacks net directories kenkuConfig ss (callback net directories kenkuConfig s w)"

text \<open>The state when the module is loaded: \<open>let ACTIVATED = false\<close>, an empty queue.\<close>

definition initial :: world where
  "initial = \<lparr>queue = [], ACTIVATED = False, effects = []\<rparr>"

record Argv =
  argv_action :: "string option"
  argv_rootDir :: "string option"
  argv_playlistsDir :: "string option"
  argv_soundboardsDir :: "string option"
  argv_host :: "string option"
  argv_port :: "string option"

text \<open>\<open>!x\<close> on an optional string.\<close>

definition missing :: "string option \<Rightarrow> bool" where
  "missing x = (case x of None \<Rightarrow> True | Some s \<Rightarrow> s = [])"

definition driver ::
  "network \<Rightarrow> failure + string list \<Rightarrow> failure + string list \<Rightarrow> Argv \<Rightarrow> world \<Rightarrow>
   failure option \<times> world" where
  "driver net listedPlaylists listedSoundboards argv w =
     (let kenkuConfig =
            \<lparr>host = orDefault (argv_host argv) (host DEFAULT_KENKU_CONFIG),
             port = orDefault (argv_port argv) (port DEFAULT_KENKU_CONFIG)\<rparr>;
          act = orDefault (argv_action argv) [];
          directories =
            \<lparr>root = orDefault (argv_rootDir argv) [],
             playlists = argv_playlistsDir argv,
             soundboards = argv_soundboardsDir argv\<rparr>
      in if missing (argv_action argv)
            \<or> act \<notin> set [''purge'', ''backfill'', ''watch'', ''view'']
         then (Some (Thrown (''Invalid action: '' @ orDefault (argv_action argv) ''undefined'')), w)
         else if act = ''view'' then
           (case listedPlaylists of
              Inl e \<Rightarrow> (Some e, w)
            | Inr _ \<Rightarrow> (case listedSoundboards of Inl e \<Rightarrow> (Some e, w) | Inr _ \<Rightarrow> (None, w)))
         else if act = ''purge'' then
           purge net listedPlaylists listedSoundboards kenkuConfig w
         else if act = ''backfill'' then
           (if missing (argv_rootDir argv) then (Some (Thrown ''Missing rootDir!''), w)
            else (None, watch True directories kenkuConfig w))
         else
           (if missing (argv_rootDir argv) then (Some (Thrown ''Missing rootDir!''), w)
            else (None, watch False directories kenkuConfig w)))"

section \<open>Notions of the specification\<close>

text \<open>
  The operations of the remote client, the table of section 4.2 of the
  specification (event kind and branch give the operation; the branch is
  \<open>True\<close> for playlists) and the paths of section 6.
\<close>

datatype operation =
    OpAddPlaylist | OpAddTrack | OpRemoveTrack | OpRemovePlaylist
  | OpAddSoundboard | OpAddSound | OpRemoveSound | OpRemoveSoundboard

fun specOperation :: "action \<Rightarrow> bool \<Rightarrow> operation" where
  "specOperation Add playlistBranch = (if playlistBranch then OpAddTrack else OpAddSound)"
| "specOperation Unlink playlistBranch =
     (if playlistBranch then OpRemoveTrack else OpRemoveSound)"
| "specOperation AddDir playlistBranch =
     (if playlistBranch then OpAddPlaylist else OpAddSoundboard)"
| "specOperation UnlinkDir playlistBranch =
     (if playlistBranch then OpRemovePlaylist else OpRemoveSoundboard)"

fun specEndpoint :: "operation \<Rightarrow> string" where
  "specEndpoint OpAddPlaylist = ''playlist/add''"
| "specEndpoint OpAddTrack = ''playlist/addTrack''"
| "specEndpoint OpRemoveTrack = ''playlist/removeTrack''"
| "specEndpoint OpRemovePlaylist = ''playlist/remove''"
| "specEndpoint OpAddSoundboard = ''soundboard/add''"
| "specEndpoint OpAddSound = ''soundboard/addSound''"
| "specEndpoint OpRemoveSound = ''soundboard/removeSound''"
| "specEndpoint OpRemoveSoundboard = ''soundboard/remove''"

text \<open>The classification that \<open>handleQueue\<close> applies to an event: the file pattern
  for the two file events, the directory pattern for the two directory events.\<close>

definition classified :: "DirectoriesConfig \<Rightarrow> event \<Rightarrow> string option" where
  "classified directories event =
     (case ev_action event of
        Add \<Rightarrow> validateFile directories (ev_path event)
      | Unlink \<Rightarrow> validateFile directories (ev_path event)
      | AddDir \<Rightarrow> validateDirectory directories (ev_path event)
      | UnlinkDir \<Rightarrow> validateDirectory directories (ev_path event))"

text \<open>
  The two grammars as the specification words them: a collection name is a
  non-empty sequence of letters, digits, spaces and hyphens; an item name may hold
  the dot as well.
\<close>

definition specItemChar :: "char \<Rightarrow> bool" where
  "specItemChar c = (folderChar c \<or> c = CHR ''.'')"

definition specDirectoryGrammar :: "DirectoriesConfig \<Rightarrow> string \<Rightarrow> bool" where
  "specDirectoryGrammar directories path =
     (\<exists>sub n. (sub = playlistsDir directories \<or> sub = soundboardsDir directories)
        \<and> path = root directories @ ''/'' @ sub @ ''/'' @ n
        \<and> n \<noteq> [] \<and> list_all folderChar n)"

definition specFileGrammar :: "DirectoriesConfig \<Rightarrow> string \<Rightarrow> bool" where
  "specFileGrammar directories path =
     (\<exists>sub n f. (sub = playlistsDir directories \<or> sub = soundboardsDir directories)
        \<and> path = root directories @ ''/'' @ sub @ ''/'' @ n @ ''/'' @ f
        \<and> n \<noteq> [] \<and> list_all folderChar n
        \<and> f \<noteq> [] \<and> list_all specItemChar f)"

text \<open>The final segment of a path, and the path of the directory that holds it.\<close>

definition finalSegment :: "string \<Rightarrow> string" where
  "finalSegment path = rev (takeWhile (\<lambda>c. c \<noteq> CHR ''/'') (rev path))"

definition parentDirectory :: "string \<Rightarrow> string" where
  "parentDirectory path = take (length path - Suc (length (finalSegment path))) path"

text \<open>The title as the specification words it: the segment cut at its first dot,
  or the placeholder when that is empty or white space only.\<close>

definition specTitle :: "string \<Rightarrow> string" where
  "specTitle segment =
     (let t = takeWhile (\<lambda>c. c \<noteq> CHR ''.'') segment
      in if list_all isWhite t then ''UnknownTitle'' else t)"

text \<open>The number of positions of a text at which a pattern occurs.\<close>

fun occurrences :: "string \<Rightarrow> string \<Rightarrow> nat" where
  "occurrences [] t = (if t = [] then 1 else 0)"
| "occurrences (c # cs) t = (if prefix t (c # cs) then 1 else 0) + occurrences cs t"

text \<open>The url of the collection in the body of a request: the field
  \<open>playlistUrl\<close>, or else the field \<open>soundboardUrl\<close>.\<close>

definition collectionUrl :: "request \<Rightarrow> json option" where
  "collectionUrl req =
     (case req_body req of
        Some (JObject members) \<Rightarrow>
          (case map_of members ''playlistUrl'' of
             Some v \<Rightarrow> Some v
           | None \<Rightarrow> map_of members ''soundboardUrl'')
      | _ \<Rightarrow> None)"






section \<open>Sample configuration\<close>

text \<open>
  The configuration of the examples in the specification (root \<open>/r\<close>, playlists
  directory \<open>Playlists\<close>, soundboards directory left to its default) and one
  with names of its own for both directories; a network that answers every
  request with status 200 and the body \<open>null\<close>, one that answers every request
  with status 500 and an error object, and one that answers with status 404 to the
  removal of the playlist \<open>/r/Playlists/Rock\<close> and with status 200 otherwise.
\<close>

definition customDirectories :: DirectoriesConfig where
  "customDirectories =
     \<lparr>root = ''/r'', playlists = Some ''Music'', soundboards = Some ''Effects''\<rparr>"


definition failingNetwork :: network where
  "failingNetwork history target req =
     Inr \<lparr>status = 500, decoded = Inr (JObject [(''error'', JString ''failed'')])\<rparr>"

definition sampleDirectories :: DirectoriesConfig where
  "sampleDirectories = \<lparr>root = ''/r'', playlists = Some ''Playlists'', soundboards = None\<rparr>"

definition sampleNetwork :: network where
  "sampleNetwork history target req = Inr \<lparr>status = 200, decoded = Inr JNull\<rparr>"

section \<open>cleanUrl\<close>

lemma lastCharAt_slash: "(lastCharAt s = ''/'') = (s \<noteq> [] \<and> last s = CHR ''/'')"
  by (cases s rule: rev_cases) (simp_all add: lastCharAt_def)

lemma cleanUrl_snoc_slash: "cleanUrl (s @ ''/'') = s"
  by (simp add: cleanUrl_def lastCharAt_slash)

lemma cleanUrl_not_slash: "c \<noteq> CHR ''/'' \<Longrightarrow> cleanUrl (s @ [c]) = s @ [c]"
  by (simp add: cleanUrl_def lastCharAt_slash)

lemma cleanUrl_Nil: "cleanUrl [] = []"
  by (simp add: cleanUrl_def lastCharAt_def)

text \<open>
  C6, as the specification states it: \<open>cleanUrl\<close> is idempotent on every string.
  It is not: of two trailing slashes each application strips one.
\<close>

theorem cleanUrl_idempotent_counterexample:
  "cleanUrl (cleanUrl ''a//'') \<noteq> cleanUrl ''a//''"
  by (simp add: cleanUrl_def lastCharAt_def)

text \<open>
  C6, amended: \<open>cleanUrl\<close> strips exactly one trailing slash when there is one and
  changes nothing else, and \<open>cleanUrl (cleanUrl x) = cleanUrl x\<close> holds exactly for
  the strings \<open>x\<close> that do not end in two slashes.
\<close>

theorem cleanUrl_one_slash:
  "(if suffix ''/'' x then x = cleanUrl x @ ''/'' else cleanUrl x = x)
   \<and> (cleanUrl (cleanUrl x) = cleanUrl x \<longleftrightarrow> \<not> suffix ''//'' x)"
proof (cases x rule: rev_cases)
  case Nil
  then show ?thesis by (simp add: cleanUrl_Nil)
next
  case (snoc y c)
  show ?thesis
  proof (cases "c = CHR ''/''")
    case False
    with snoc show ?thesis by (simp add: cleanUrl_not_slash suffix_def)
  next
    case True
    note slash = this
    show ?thesis
    proof (cases y rule: rev_cases)
      case Nil
      with snoc slash show ?thesis
        using cleanUrl_snoc_slash [of "[]"] by (simp add: cleanUrl_Nil suffix_def)
    next
      case (snoc z d)
      with \<open>x = y @ [c]\<close> slash show ?thesis
        using cleanUrl_snoc_slash [of "z @ [d]"] cleanUrl_snoc_slash [of z]
        by (cases "d = CHR ''/''") (auto simp add: cleanUrl_not_slash suffix_def)
    qed
  qed
qed

text \<open>The amended C6 at the url of a directory that ends in one slash.\<close>

theorem cleanUrl_one_slash_witness:
  "''/r/Playlists/Jazz/'' = cleanUrl ''/r/Playlists/Jazz/'' @ ''/''
   \<and> cleanUrl (cleanUrl ''/r/Playlists/Jazz/'') = cleanUrl ''/r/Playlists/Jazz/''"
  using cleanUrl_one_slash [of "''/r/Playlists/Jazz/''"]
  by (simp add: suffix_to_prefix)

section \<open>The queue worker\<close>

lemma snd_callKenku:
  "snd (callKenku net config req w) =
     w\<lparr>effects := effects w @ [Fetch (url (host config) (port config) @ ''/'' @ req_path req) req]\<rparr>"
  by (simp add: callKenku_def Let_def split: sum.splits)

lemmas snd_remote =
  addPlaylist_def addTrack_def removeTrack_def removePlaylist_def
  addSoundboard_def addSound_def removeSound_def removeSoundboard_def snd_callKenku

lemma directoryTail_nonempty: "directoryTail sub s = Some n \<Longrightarrow> n \<noteq> []"
  by (auto simp add: directoryTail_def split: option.splits if_splits)

lemma fileTail_nonempty: "fileTail sub s = Some f \<Longrightarrow> f \<noteq> []"
  by (auto simp add: fileTail_def split: option.splits if_splits)

lemma validateDirectory_nonempty: "validateDirectory d p = Some n \<Longrightarrow> n \<noteq> []"
  by (auto simp add: validateDirectory_def split: option.splits dest: directoryTail_nonempty)

lemma validateFile_nonempty: "validateFile d p = Some f \<Longrightarrow> f \<noteq> []"
  by (auto simp add: validateFile_def split: option.splits dest: fileTail_nonempty)

lemma handleQueue_closed:
  "\<not> ACTIVATED w \<Longrightarrow> handleQueue net d k w = w\<lparr>queue := tl (queue w)\<rparr>"
  by (simp add: handleQueue_def Let_def split: list.splits action.splits option.splits)

lemma ACTIVATED_handleQueue: "ACTIVATED (handleQueue net d k w) = ACTIVATED w"
  by (simp add: handleQueue_def Let_def snd_remote split: list.splits action.splits option.splits)

lemma queue_handleQueue: "queue (handleQueue net d k w) = tl (queue w)"
  by (simp add: handleQueue_def Let_def snd_remote split: list.splits action.splits option.splits)

lemma handleQueue_unclassified:
  "queue w = ev # rest \<Longrightarrow> classified d ev = None \<Longrightarrow> handleQueue net d k w = w\<lparr>queue := rest\<rparr>"
  by (simp add: handleQueue_def classified_def Let_def split: action.splits)

text \<open>With the gate open, an event that classifies makes \<open>handleQueue\<close> start one
  request: a \<open>put\<close> to the path that the tables give.\<close>

lemma handleQueue_dispatch:
  assumes "queue w = ev # rest" and "ACTIVATED w" and "classified d ev = Some n"
  shows "\<exists>body. handleQueue net d k w =
     w\<lparr>queue := rest,
       effects := effects w @
         [Fetch (url (host k) (port k) @ ''/''
                   @ specEndpoint (specOperation (ev_action ev)
                        (includesStr (ev_path ev) (playlistsDir d))))
            \<lparr>req_path = specEndpoint (specOperation (ev_action ev)
                          (includesStr (ev_path ev) (playlistsDir d))),
             req_method = Put, req_body = Some body\<rparr>]\<rparr>"
proof (cases "ev_action ev")
  case Add
  with assms have v: "validateFile d (ev_path ev) = Some n" by (simp add: classified_def)
  then have "n \<noteq> []" by (rule validateFile_nonempty)
  with assms Add v show ?thesis
    by (simp add: handleQueue_def Let_def snd_remote) blast
next
  case AddDir
  with assms have v: "validateDirectory d (ev_path ev) = Some n" by (simp add: classified_def)
  then have "n \<noteq> []" by (rule validateDirectory_nonempty)
  with assms AddDir v show ?thesis
    by (simp add: handleQueue_def Let_def snd_remote) blast
next
  case Unlink
  with assms have v: "validateFile d (ev_path ev) = Some n" by (simp add: classified_def)
  then have "n \<noteq> []" by (rule validateFile_nonempty)
  with assms Unlink v show ?thesis
    by (simp add: handleQueue_def Let_def snd_remote) blast
next
  case UnlinkDir
  with assms have v: "validateDirectory d (ev_path ev) = Some n" by (simp add: classified_def)
  then have "n \<noteq> []" by (rule validateDirectory_nonempty)
  with assms UnlinkDir v show ?thesis
    by (simp add: handleQueue_def Let_def snd_remote) blast
qed

lemma funpow_handleQueue_closed:
  "\<not> ACTIVATED w \<Longrightarrow> (handleQueue net d k ^^ n) w = w\<lparr>queue := drop n (queue w)\<rparr>"
proof (induction n)
  case 0
  then show ?case by simp
next
  case (Suc n)
  then show ?case by (simp add: handleQueue_closed drop_Suc tl_drop)
qed

lemma includesStr_sublist: "includesStr s t = sublist t s"
  by (induction s) (simp_all add: sublist_Cons_right)

text \<open>The facts that evaluate the sample configuration.\<close>

lemmas sample_simps =
  sampleDirectories_def sampleNetwork_def DEFAULT_KENKU_CONFIG_def initial_def
  plainDirectories_def plainString_def regexMeta_def code_def playlistsDir_def
  soundboardsDir_def orDefault_def DEFAULT_PLAYLIST_DIR_def DEFAULT_SOUNDBOARDS_DIR_def

section \<open>The activation gate at the queue (C1)\<close>

text \<open>
  While the activation gate is closed, any number \<open>n\<close> of runs of the worker
  start no request, each run removes the event at the head of the queue, and the
  gate stays closed.
\<close>

lemma closed_gate_discards:
  assumes "\<not> ACTIVATED w"
  shows "effects ((handleQueue net d k ^^ n) w) = effects w
    \<and> queue ((handleQueue net d k ^^ n) w) = drop n (queue w)
    \<and> \<not> ACTIVATED ((handleQueue net d k ^^ n) w)"
  using assms by (simp add: funpow_handleQueue_closed)

text \<open>
  C1 in watch-only mode, at a playlist directory and a track in it that the
  watcher reports before it is ready. C1 says that events enqueued before the gate
  opens are discarded also when they are dequeued after. The first tick comes
  while the gate is closed and discards the directory. Then the watcher is ready,
  and the second tick dequeues the track: \<open>handleQueue\<close> reads \<open>ACTIVATED\<close> at that
  moment, finds it set, and sends \<open>addTrack\<close> for a file that was there before
  the watch began.
\<close>

theorem queued_before_ready_is_sent:
  "\<not> ACTIVATED (callbacks sampleNetwork sampleDirectories DEFAULT_KENKU_CONFIG
        [Emitted AddDir ''/r/Playlists/Jazz'', Emitted Add ''/r/Playlists/Jazz/Song 1.mp3'', Tick]
        (watch False sampleDirectories DEFAULT_KENKU_CONFIG initial))
   \<and> callbacks sampleNetwork sampleDirectories DEFAULT_KENKU_CONFIG
        [Emitted AddDir ''/r/Playlists/Jazz'', Emitted Add ''/r/Playlists/Jazz/Song 1.mp3'',
         Tick, Ready, Tick]
        (watch False sampleDirectories DEFAULT_KENKU_CONFIG initial)
     = \<lparr>queue = [], ACTIVATED = True,
        effects =
          [SetInterval 500, Watch ''/r'',
           Fetch ''http://127.0.0.1:3333/v1/playlist/addTrack''
             \<lparr>req_path = ''playlist/addTrack'', req_method = Put,
              req_body = Some (JObject
                [(''title'', JString ''Song 1''),
                 (''url'', JString ''file:///r/Playlists/Jazz/Song%201.mp3''),
                 (''playlistUrl'', JString ''/r/Playlists/Jazz'')])\<rparr>]\<rparr>"
  by code_simp

section \<open>The operation that is dispatched (C2)\<close>

text \<open>The name of the playlists directory that \<open>handleQueue\<close> looks for in a path
  is the configured one, and \<open>Playlists\<close> when none is configured.\<close>

lemma playlistsDir_configured:
  "playlistsDir d
     = (case playlists d of None \<Rightarrow> ''Playlists'' | Some s \<Rightarrow> if s = [] then ''Playlists'' else s)"
  by (simp add: playlistsDir_def orDefault_def DEFAULT_PLAYLIST_DIR_def)

text \<open>
  C2: when the gate is open and the event at the head of the queue classifies,
  \<open>handleQueue\<close> starts exactly one request. Its path is the one that the table
  gives for the kind of the event and the branch, and the branch is the playlist
  one exactly when the path holds, as a substring, the name of the playlists
  directory: the configured name, or \<open>Playlists\<close> when none is configured.
\<close>

theorem dispatch_by_kind_and_branch:
  assumes "plainDirectories d" and "queue w = ev # rest" and "ACTIVATED w"
    and "classified d ev = Some n"
  shows "(\<exists>body. handleQueue net d k w =
     w\<lparr>queue := rest,
       effects := effects w @
         [Fetch (url (host k) (port k) @ ''/''
                   @ specEndpoint (specOperation (ev_action ev)
                        (includesStr (ev_path ev) (playlistsDir d))))
            \<lparr>req_path = specEndpoint (specOperation (ev_action ev)
                          (includesStr (ev_path ev) (playlistsDir d))),
             req_method = Put, req_body = Some body\<rparr>]\<rparr>)
    \<and> includesStr (ev_path ev) (playlistsDir d) = sublist (playlistsDir d) (ev_path ev)
    \<and> playlistsDir d
        = (case playlists d of
             None \<Rightarrow> ''Playlists''
           | Some s \<Rightarrow> if s = [] then ''Playlists'' else s)"
  using handleQueue_dispatch [OF assms(2-4)] includesStr_sublist playlistsDir_configured
  by simp

text \<open>
  C2 with the directories \<open>Music\<close> and \<open>Effects\<close> configured, at the new playlist
  directory \<open>/r/Music/Jazz\<close> and at the removed sound \<open>/r/Effects/Combat/Roar.wav\<close>,
  and with the default names at the removed soundboard \<open>/r/Soundboards/Combat\<close>.
\<close>

theorem dispatch_by_kind_and_branch_witness:
  "(\<exists>body. handleQueue sampleNetwork customDirectories DEFAULT_KENKU_CONFIG
      \<lparr>queue = [\<lparr>ev_action = AddDir, ev_path = ''/r/Music/Jazz''\<rparr>],
       ACTIVATED = True, effects = []\<rparr>
    = \<lparr>queue = [], ACTIVATED = True,
       effects = [Fetch ''http://127.0.0.1:3333/v1/playlist/add''
          \<lparr>req_path = ''playlist/add'', req_method = Put, req_body = Some body\<rparr>]\<rparr>)
   \<and> (\<exists>body. handleQueue sampleNetwork customDirectories DEFAULT_KENKU_CONFIG
      \<lparr>queue = [\<lparr>ev_action = Unlink, ev_path = ''/r/Effects/Combat/Roar.wav''\<rparr>],
       ACTIVATED = True, effects = []\<rparr>
    = \<lparr>queue = [], ACTIVATED = True,
       effects = [Fetch ''http://127.0.0.1:3333/v1/soundboard/removeSound''
          \<lparr>req_path = ''soundboard/removeSound'', req_method = Put, req_body = Some body\<rparr>]\<rparr>)
   \<and> (\<exists>body. handleQueue sampleNetwork sampleDirectories DEFAULT_KENKU_CONFIG
      \<lparr>queue = [\<lparr>ev_action = UnlinkDir, ev_path = ''/r/Soundboards/Combat''\<rparr>],
       ACTIVATED = True, effects = []\<rparr>
    = \<lparr>queue = [], ACTIVATED = True,
       effects = [Fetch ''http://127.0.0.1:3333/v1/soundboard/remove''
          \<lparr>req_path = ''soundboard/remove'', req_method = Put, req_body = Some body\<rparr>]\<rparr>)"
proof -
  note eval = sample_simps customDirectories_def classified_def validateDirectory_def
    validateFile_def literal_def directoryTail_def fileTail_def folderChar_def fileChar_def
    between_def url_def
  have a: "\<exists>body. handleQueue sampleNetwork customDirectories DEFAULT_KENKU_CONFIG
      \<lparr>queue = [\<lparr>ev_action = AddDir, ev_path = ''/r/Music/Jazz''\<rparr>],
       ACTIVATED = True, effects = []\<rparr>
    = \<lparr>queue = [], ACTIVATED = True,
       effects = [Fetch ''http://127.0.0.1:3333/v1/playlist/add''
          \<lparr>req_path = ''playlist/add'', req_method = Put, req_body = Some body\<rparr>]\<rparr>"
    using dispatch_by_kind_and_branch [where d = customDirectories and net = sampleNetwork
      and k = DEFAULT_KENKU_CONFIG and rest = "[]" and n = "''Jazz''"
      and ev = "\<lparr>ev_action = AddDir, ev_path = ''/r/Music/Jazz''\<rparr>" and w =
      "\<lparr>queue = [\<lparr>ev_action = AddDir, ev_path = ''/r/Music/Jazz''\<rparr>],
        ACTIVATED = True, effects = []\<rparr>"]
    by (simp add: eval)
  have b: "\<exists>body. handleQueue sampleNetwork customDirectories DEFAULT_KENKU_CONFIG
      \<lparr>queue = [\<lparr>ev_action = Unlink, ev_path = ''/r/Effects/Combat/Roar.wav''\<rparr>],
       ACTIVATED = True, effects = []\<rparr>
    = \<lparr>queue = [], ACTIVATED = True,
       effects = [Fetch ''http://127.0.0.1:3333/v1/soundboard/removeSound''
          \<lparr>req_path = ''soundboard/removeSound'', req_method = Put, req_body = Some body\<rparr>]\<rparr>"
    using dispatch_by_kind_and_branch [where d = customDirectories and net = sampleNetwork
      and k = DEFAULT_KENKU_CONFIG and rest = "[]" and n = "''Roar.wav''"
      and ev = "\<lparr>ev_action = Unlink, ev_path = ''/r/Effects/Combat/Roar.wav''\<rparr>" and w =
      "\<lparr>queue = [\<lparr>ev_action = Unlink, ev_path = ''/r/Effects/Combat/Roar.wav''\<rparr>],
        ACTIVATED = True, effects = []\<rparr>"]
    by (simp add: eval)
  have c: "\<exists>body. handleQueue sampleNetwork sampleDirectories DEFAULT_KENKU_CONFIG
      \<lparr>queue = [\<lparr>ev_action = UnlinkDir, ev_path = ''/r/Soundboards/Combat''\<rparr>],
       ACTIVATED = True, effects = []\<rparr>
    = \<lparr>queue = [], ACTIVATED = True,
       effects = [Fetch ''http://127.0.0.1:3333/v1/soundboard/remove''
          \<lparr>req_path = ''soundboard/remove'', req_method = Put, req_body = Some body\<rparr>]\<rparr>"
    using dispatch_by_kind_and_branch [where d = sampleDirectories and net = sampleNetwork
      and k = DEFAULT_KENKU_CONFIG and rest = "[]" and n = "''Combat''"
      and ev = "\<lparr>ev_action = UnlinkDir, ev_path = ''/r/Soundboards/Combat''\<rparr>" and w =
      "\<lparr>queue = [\<lparr>ev_action = UnlinkDir, ev_path = ''/r/Soundboards/Combat''\<rparr>],
        ACTIVATED = True, effects = []\<rparr>"]
    by (simp add: eval)
  from a b c show ?thesis by blast
qed

section \<open>The activation gate over a run (C9)\<close>

lemma ACTIVATED_callback:
  "ACTIVATED (callback net d k s w) = (ACTIVATED w \<or> s = Ready)"
  by (cases s) (simp_all add: ACTIVATED_handleQueue)

lemma ACTIVATED_callbacks:
  "ACTIVATED (callbacks net d k ss w) = (ACTIVATED w \<or> Ready \<in> set ss)"
  by (induction ss arbitrary: w) (auto simp add: ACTIVATED_callback)

lemma driver_watch:
  "argv_action argv = Some ''watch'' \<Longrightarrow> \<not> missing (argv_rootDir argv) \<Longrightarrow>
   \<exists>d k. driver net lp ls argv w = (None, watch False d k w)"
  by (simp add: driver_def Let_def orDefault_def missing_def) blast

lemma driver_backfill:
  "argv_action argv = Some ''backfill'' \<Longrightarrow> \<not> missing (argv_rootDir argv) \<Longrightarrow>
   \<exists>d k. driver net lp ls argv w = (None, watch True d k w)"
  by (simp add: driver_def Let_def orDefault_def missing_def) blast

text \<open>
  C9: \<open>watch\<close> leaves the gate closed in watch-only mode and open in backfill
  mode, before any callback runs (and the driver starts the two modes so).
  After any callbacks the gate is open exactly when the mode was backfill or the
  watcher has signalled \<open>ready\<close>. The \<open>ready\<close> handler is idempotent, and changes
  nothing when the gate is open already. Once open, the gate stays open whatever
  callbacks follow.
\<close>

theorem gate_opens_once:
  assumes "plainDirectories d"
  shows "\<not> ACTIVATED (watch False d k w) \<and> ACTIVATED (watch True d k w)
    \<and> (ACTIVATED (callbacks net d k ss (watch b d k w)) \<longleftrightarrow> b \<or> Ready \<in> set ss)
    \<and> callback net d k Ready (callback net d k Ready v) = callback net d k Ready v
    \<and> (ACTIVATED v \<longrightarrow> callback net d k Ready v = v)
    \<and> (ACTIVATED (callbacks net d k ss v) \<longrightarrow> ACTIVATED (callbacks net d k (ss @ ts) v))
    \<and> (argv_action argv = Some ''watch'' \<and> \<not> missing (argv_rootDir argv) \<longrightarrow>
         \<not> ACTIVATED (snd (driver net lp ls argv initial)))
    \<and> (argv_action argv = Some ''backfill'' \<and> \<not> missing (argv_rootDir argv) \<longrightarrow>
         ACTIVATED (snd (driver net lp ls argv initial)))"
proof -
  have start: "ACTIVATED (watch b d k w) = b" for b
    by (simp add: watch_def)
  have idem: "callback net d k Ready (callback net d k Ready v) = callback net d k Ready v"
    by simp
  have noop: "callback net d k Ready v = v" if "ACTIVATED v"
    using that by (cases v) simp
  have mono: "ACTIVATED (callbacks net d k (ss @ ts) v)" if "ACTIVATED (callbacks net d k ss v)"
    using that by (auto simp add: ACTIVATED_callbacks)
  have w: "\<not> ACTIVATED (snd (driver net lp ls argv initial))"
    if "argv_action argv = Some ''watch''" and "\<not> missing (argv_rootDir argv)"
    using driver_watch [OF that, of net lp ls initial] by (auto simp add: watch_def)
  have bf: "ACTIVATED (snd (driver net lp ls argv initial))"
    if "argv_action argv = Some ''backfill''" and "\<not> missing (argv_rootDir argv)"
    using driver_backfill [OF that, of net lp ls initial] by (auto simp add: watch_def)
  from start idem noop mono w bf show ?thesis
    by (simp add: ACTIVATED_callbacks)
qed

text \<open>C9 in watch-only mode before and after \<open>ready\<close>, and in backfill mode.\<close>

theorem gate_opens_once_witness:
  "\<not> ACTIVATED (callbacks sampleNetwork sampleDirectories DEFAULT_KENKU_CONFIG
       [Emitted AddDir ''/r/Playlists/Jazz'', Tick]
       (watch False sampleDirectories DEFAULT_KENKU_CONFIG initial))
   \<and> ACTIVATED (callbacks sampleNetwork sampleDirectories DEFAULT_KENKU_CONFIG
       [Emitted AddDir ''/r/Playlists/Jazz'', Ready, Tick]
       (watch False sampleDirectories DEFAULT_KENKU_CONFIG initial))
   \<and> ACTIVATED (callbacks sampleNetwork sampleDirectories DEFAULT_KENKU_CONFIG
       [Emitted AddDir ''/r/Playlists/Jazz'', Tick]
       (watch True sampleDirectories DEFAULT_KENKU_CONFIG initial))"
  using gate_opens_once [where d = sampleDirectories and net = sampleNetwork
      and k = DEFAULT_KENKU_CONFIG and w = initial and b = False
      and ss = "[Emitted AddDir ''/r/Playlists/Jazz'', Tick]"]
    gate_opens_once [where d = sampleDirectories and net = sampleNetwork
      and k = DEFAULT_KENKU_CONFIG and w = initial and b = False
      and ss = "[Emitted AddDir ''/r/Playlists/Jazz'', Ready, Tick]"]
    gate_opens_once [where d = sampleDirectories and net = sampleNetwork
      and k = DEFAULT_KENKU_CONFIG and w = initial and b = True
      and ss = "[Emitted AddDir ''/r/Playlists/Jazz'', Tick]"]
  by (simp add: sample_simps)

section \<open>The status of a response (C8)\<close>

text \<open>
  C8: for a request that \<open>fetch\<close> answers with a response whose body is JSON
  (the interface of the remote service), \<open>callKenku\<close> throws the error that
  carries the decoded body exactly when the status is 400 or more, it throws nothing
  else, and below 400 it returns the decoded body. Every remote operation is
  \<open>callKenku\<close> on its request.
\<close>

theorem callKenku_status:
  assumes "net (effects w) (url (host config) (port config) @ ''/'' @ req_path req) req
             = Inr response"
    and "decoded response = Inr data"
  shows "(fst (callKenku net config req w) = Inl (KenkuError data) \<longleftrightarrow> 400 \<le> status response)
    \<and> (isl (fst (callKenku net config req w)) \<longleftrightarrow> 400 \<le> status response)
    \<and> (status response < 400 \<longrightarrow> fst (callKenku net config req w) = Inr data)"
  using assms by (simp add: callKenku_def Let_def)

text \<open>C8 at a response with status 500 and at one with status 200.\<close>

theorem callKenku_status_witness:
  "fst (callKenku failingNetwork DEFAULT_KENKU_CONFIG
          \<lparr>req_path = ''playlist/remove'', req_method = Put,
           req_body = Some (JObject [(''url'', JString ''/r/Playlists/Jazz'')])\<rparr> initial)
     = Inl (KenkuError (JObject [(''error'', JString ''failed'')]))
   \<and> fst (callKenku sampleNetwork DEFAULT_KENKU_CONFIG
          \<lparr>req_path = ''playlist/remove'', req_method = Put,
           req_body = Some (JObject [(''url'', JString ''/r/Playlists/Jazz'')])\<rparr> initial)
     = Inr JNull"
  using callKenku_status [where net = failingNetwork and config = DEFAULT_KENKU_CONFIG
      and w = initial and data = "JObject [(''error'', JString ''failed'')]"
      and response = "\<lparr>status = 500, decoded = Inr (JObject [(''error'', JString ''failed'')])\<rparr>"
      and req = "\<lparr>req_path = ''playlist/remove'', req_method = Put,
           req_body = Some (JObject [(''url'', JString ''/r/Playlists/Jazz'')])\<rparr>"]
    callKenku_status [where net = sampleNetwork and config = DEFAULT_KENKU_CONFIG
      and w = initial and data = JNull
      and response = "\<lparr>status = 200, decoded = Inr JNull\<rparr>"
      and req = "\<lparr>req_path = ''playlist/remove'', req_method = Put,
           req_body = Some (JObject [(''url'', JString ''/r/Playlists/Jazz'')])\<rparr>"]
  by (simp add: failingNetwork_def sampleNetwork_def)

section \<open>The path patterns as grammars\<close>

text \<open>
  What the two validations accept, in words: \<open>validateDirectory\<close> gives the name
  \<open>n\<close> exactly for the paths \<open>root/sub/n\<close>, and \<open>validateFile\<close> gives the name \<open>f\<close>
  exactly for the paths \<open>root/sub/n/f\<close>, where \<open>sub\<close> is one of the two configured
  directories, \<open>n\<close> is a non-empty run of the folder class and \<open>f\<close> a non-empty run
  of the file class.
\<close>

lemma folderChar_not_slash: "folderChar c \<Longrightarrow> c \<noteq> CHR ''/''"
  by (auto simp add: folderChar_def between_def code_def)

lemma fileChar_not_slash: "fileChar c \<Longrightarrow> c \<noteq> CHR ''/''"
  by (auto simp add: fileChar_def between_def code_def)

lemma specItemChar_not_slash: "specItemChar c \<Longrightarrow> c \<noteq> CHR ''/''"
  by (auto simp add: specItemChar_def dest: folderChar_not_slash)

lemma folderChar_fileChar: "folderChar c \<Longrightarrow> fileChar c"
  by (auto simp add: folderChar_def fileChar_def between_def)

lemma finalSegment_append: "CHR ''/'' \<notin> set f \<Longrightarrow> finalSegment (a @ ''/'' @ f) = f"
proof -
  assume "CHR ''/'' \<notin> set f"
  then have "takeWhile (\<lambda>c. c \<noteq> CHR ''/'') (rev f @ CHR ''/'' # rev a) = rev f"
    by (subst takeWhile_append2) auto
  then show ?thesis by (simp add: finalSegment_def)
qed

lemma no_slash: "list_all P f \<Longrightarrow> (\<And>c. P c \<Longrightarrow> c \<noteq> CHR ''/'') \<Longrightarrow> CHR ''/'' \<notin> set f"
  by (auto simp add: list_all_iff)

lemma literal_Some: "literal l s = Some t \<longleftrightarrow> s = l @ t"
  by (auto simp add: literal_def prefix_def)

lemma literal_append: "literal l (l @ t) = Some t"
  by (simp add: literal_def)

lemma literal_slash: "literal (l @ ''/'') (l @ CHR ''/'' # t) = Some t"
  using literal_append [of "l @ ''/''" t] by simp

lemma literal_slash_only: "literal ''/'' (CHR ''/'' # t) = Some t"
  by (simp add: literal_def)

lemma directoryTail_iff:
  "directoryTail sub s = Some n \<longleftrightarrow> s = sub @ ''/'' @ n \<and> n \<noteq> [] \<and> list_all folderChar n"
  by (auto simp add: directoryTail_def literal_Some literal_slash split: option.splits)

lemma run_of_folder:
  assumes "list_all folderChar n"
  shows "takeWhile folderChar (n @ ''/'' @ f) = n" and "dropWhile folderChar (n @ ''/'' @ f) = ''/'' @ f"
proof -
  have "\<not> folderChar (CHR ''/'')" using folderChar_not_slash by blast
  with assms show "takeWhile folderChar (n @ ''/'' @ f) = n"
    by (simp add: takeWhile_append2 list_all_iff)
  from \<open>\<not> folderChar (CHR ''/'')\<close> assms show "dropWhile folderChar (n @ ''/'' @ f) = ''/'' @ f"
    by (simp add: dropWhile_append2 list_all_iff)
qed

lemma fileTail_iff:
  "fileTail sub s = Some f \<longleftrightarrow>
     (\<exists>n. s = sub @ ''/'' @ n @ ''/'' @ f \<and> n \<noteq> [] \<and> list_all folderChar n
          \<and> f \<noteq> [] \<and> list_all fileChar f)"
proof
  assume "fileTail sub s = Some f"
  then obtain t where t: "s = (sub @ ''/'') @ t" and n: "takeWhile folderChar t \<noteq> []"
    and d: "dropWhile folderChar t = ''/'' @ f" and f: "f \<noteq> []" "list_all fileChar f"
    by (auto simp add: fileTail_def literal_Some split: option.splits if_splits)
  have "t = takeWhile folderChar t @ dropWhile folderChar t" by simp
  with d have "t = takeWhile folderChar t @ ''/'' @ f" by simp
  moreover have "list_all folderChar (takeWhile folderChar t)"
    by (auto simp add: list_all_iff dest: set_takeWhileD)
  ultimately show "\<exists>n. s = sub @ ''/'' @ n @ ''/'' @ f \<and> n \<noteq> [] \<and> list_all folderChar n
          \<and> f \<noteq> [] \<and> list_all fileChar f"
    using t n f by (metis append_assoc)
next
  assume "\<exists>n. s = sub @ ''/'' @ n @ ''/'' @ f \<and> n \<noteq> [] \<and> list_all folderChar n
          \<and> f \<noteq> [] \<and> list_all fileChar f"
  then obtain n where s: "s = (sub @ ''/'') @ (n @ ''/'' @ f)" and n: "n \<noteq> []" "list_all folderChar n"
    and f: "f \<noteq> []" "list_all fileChar f" by auto
  from s have "literal (sub @ ''/'') s = Some (n @ ''/'' @ f)"
    by (simp only: literal_Some)
  with n f run_of_folder [OF n(2), of f] show "fileTail sub s = Some f"
    by (simp add: fileTail_def literal_slash literal_slash_only)
qed

lemma directoryTail_final: "directoryTail sub s = Some n \<Longrightarrow> finalSegment s = n"
  using finalSegment_append [of n sub] no_slash [of folderChar n] folderChar_not_slash
  by (auto simp add: directoryTail_iff)

lemma fileTail_final: "fileTail sub s = Some f \<Longrightarrow> finalSegment s = f"
proof -
  assume "fileTail sub s = Some f"
  then obtain n where s: "s = (sub @ ''/'' @ n) @ ''/'' @ f" and f: "list_all fileChar f"
    by (auto simp add: fileTail_iff)
  from f have "CHR ''/'' \<notin> set f" using fileChar_not_slash by (rule no_slash)
  from finalSegment_append [OF this, of "sub @ ''/'' @ n"] s show ?thesis by simp
qed

lemma validateDirectory_iff:
  "validateDirectory d p = Some n \<longleftrightarrow>
     (\<exists>sub. (sub = playlistsDir d \<or> sub = soundboardsDir d)
        \<and> p = root d @ ''/'' @ sub @ ''/'' @ n \<and> n \<noteq> [] \<and> list_all folderChar n)"
proof
  assume "validateDirectory d p = Some n"
  then obtain s where p: "p = (root d @ ''/'') @ s"
    and t: "directoryTail (playlistsDir d) s = Some n \<or> directoryTail (soundboardsDir d) s = Some n"
    by (auto simp add: validateDirectory_def literal_Some split: option.splits)
  then show "\<exists>sub. (sub = playlistsDir d \<or> sub = soundboardsDir d)
        \<and> p = root d @ ''/'' @ sub @ ''/'' @ n \<and> n \<noteq> [] \<and> list_all folderChar n"
    by (auto simp add: directoryTail_iff)
next
  assume "\<exists>sub. (sub = playlistsDir d \<or> sub = soundboardsDir d)
        \<and> p = root d @ ''/'' @ sub @ ''/'' @ n \<and> n \<noteq> [] \<and> list_all folderChar n"
  then obtain sub where sub: "sub = playlistsDir d \<or> sub = soundboardsDir d"
    and p: "p = root d @ ''/'' @ sub @ ''/'' @ n" and n: "n \<noteq> []" "list_all folderChar n"
    by blast
  let ?s = "sub @ ''/'' @ n"
  from p have l: "literal (root d @ ''/'') p = Some ?s" by (simp add: literal_slash)
  from n have tail: "directoryTail sub ?s = Some n" by (simp add: directoryTail_iff)
  show "validateDirectory d p = Some n"
  proof (cases "directoryTail (playlistsDir d) ?s")
    case None
    with sub tail l show ?thesis by (auto simp add: validateDirectory_def)
  next
    case (Some n')
    from directoryTail_final [OF this] directoryTail_final [OF tail] have "n' = n" by simp
    with Some l show ?thesis by (simp add: validateDirectory_def)
  qed
qed

lemma validateFile_iff:
  "validateFile d p = Some f \<longleftrightarrow>
     (\<exists>sub n. (sub = playlistsDir d \<or> sub = soundboardsDir d)
        \<and> p = root d @ ''/'' @ sub @ ''/'' @ n @ ''/'' @ f
        \<and> n \<noteq> [] \<and> list_all folderChar n \<and> f \<noteq> [] \<and> list_all fileChar f)"
proof
  assume "validateFile d p = Some f"
  then obtain s where p: "p = (root d @ ''/'') @ s"
    and t: "fileTail (playlistsDir d) s = Some f \<or> fileTail (soundboardsDir d) s = Some f"
    by (auto simp add: validateFile_def literal_Some split: option.splits)
  then show "\<exists>sub n. (sub = playlistsDir d \<or> sub = soundboardsDir d)
        \<and> p = root d @ ''/'' @ sub @ ''/'' @ n @ ''/'' @ f
        \<and> n \<noteq> [] \<and> list_all folderChar n \<and> f \<noteq> [] \<and> list_all fileChar f"
    by (auto simp add: fileTail_iff)
next
  assume "\<exists>sub n. (sub = playlistsDir d \<or> sub = soundboardsDir d)
        \<and> p = root d @ ''/'' @ sub @ ''/'' @ n @ ''/'' @ f
        \<and> n \<noteq> [] \<and> list_all folderChar n \<and> f \<noteq> [] \<and> list_all fileChar f"
  then obtain sub n where sub: "sub = playlistsDir d \<or> sub = soundboardsDir d"
    and p: "p = root d @ ''/'' @ sub @ ''/'' @ n @ ''/'' @ f"
    and n: "n \<noteq> []" "list_all folderChar n" and f: "f \<noteq> []" "list_all fileChar f"
    by blast
  let ?s = "sub @ ''/'' @ n @ ''/'' @ f"
  from p have l: "literal (root d @ ''/'') p = Some ?s" by (simp add: literal_slash)
  from n f have tail: "fileTail sub ?s = Some f" by (auto simp add: fileTail_iff)
  show "validateFile d p = Some f"
  proof (cases "fileTail (playlistsDir d) ?s")
    case None
    with sub tail l show ?thesis by (auto simp add: validateFile_def)
  next
    case (Some f')
    from fileTail_final [OF this] fileTail_final [OF tail] have "f' = f" by simp
    with Some l show ?thesis by (simp add: validateFile_def)
  qed
qed

lemma validateFile_split:
  assumes "validateFile d p = Some f"
  shows "\<exists>a. p = a @ ''/'' @ f \<and> CHR ''/'' \<notin> set f \<and> f \<noteq> []"
proof -
  from assms obtain sub n where p: "p = (root d @ ''/'' @ sub @ ''/'' @ n) @ ''/'' @ f"
    and f: "f \<noteq> []" "list_all fileChar f"
    by (auto simp add: validateFile_iff)
  from f(2) have "CHR ''/'' \<notin> set f" using fileChar_not_slash by (rule no_slash)
  with p f(1) show ?thesis by blast
qed

lemma specFileGrammar_final: "specFileGrammar d p \<Longrightarrow> list_all specItemChar (finalSegment p)"
proof -
  assume "specFileGrammar d p"
  then obtain sub n f where p: "p = (root d @ ''/'' @ sub @ ''/'' @ n) @ ''/'' @ f"
    and f: "list_all specItemChar f"
    by (auto simp add: specFileGrammar_def)
  from f have "CHR ''/'' \<notin> set f" using specItemChar_not_slash by (rule no_slash)
  from finalSegment_append [OF this, of "root d @ ''/'' @ sub @ ''/'' @ n"] p
  have "finalSegment p = f" by simp
  with f show ?thesis by simp
qed

lemma specItemChar_fileChar: "specItemChar c \<Longrightarrow> fileChar c"
proof -
  have "fileChar (CHR ''.'')" by (simp add: fileChar_def between_def code_def)
  then show "specItemChar c \<Longrightarrow> fileChar c"
    by (auto simp add: specItemChar_def dest: folderChar_fileChar)
qed

lemma specDirectoryGrammar_validateDirectory:
  "specDirectoryGrammar d p = (validateDirectory d p \<noteq> None)"
  by (auto simp add: specDirectoryGrammar_def validateDirectory_iff)

lemma specFileGrammar_validateFile:
  "specFileGrammar d p \<Longrightarrow> validateFile d p \<noteq> None"
proof -
  assume "specFileGrammar d p"
  then obtain sub n f where *: "sub = playlistsDir d \<or> sub = soundboardsDir d"
     "p = root d @ ''/'' @ sub @ ''/'' @ n @ ''/'' @ f" "n \<noteq> []" "list_all folderChar n"
     "f \<noteq> []" "list_all specItemChar f"
    unfolding specFileGrammar_def by blast
  have "list_all fileChar f"
    using *(6) specItemChar_fileChar by (auto simp add: list_all_iff)
  with * have "validateFile d p = Some f"
    unfolding validateFile_iff by blast
  then show ?thesis by simp
qed

text \<open>The facts that evaluate the model at a given path.\<close>

lemmas eval_simps =
  validateFile_def validateDirectory_def literal_def fileTail_def directoryTail_def
  folderChar_def fileChar_def between_def removeFileType_def trim_def isWhite_def
  slice0_def cleanUrl_def lastCharAt_def prepareFilePath_def encodeURI_def uriKept_def
  escape_def hexDigit_def

section \<open>Paths outside the grammar (C3)\<close>

text \<open>
  C3 at a file whose name holds \<open>!\<close>. The specification's grammar of items has
  letters, digits, spaces, hyphens and the dot; the path matches neither of its
  two grammars. \<open>validateFile\<close> accepts it all the same, since the class of
  \<open>fileRegex\<close> holds the range from the space to the dot, and with the gate open
  the worker sends \<open>addTrack\<close>.
\<close>

theorem item_class_is_a_range:
  "validateFile sampleDirectories ''/r/Playlists/Jazz/Song!.mp3'' = Some ''Song!.mp3''
   \<and> \<not> specFileGrammar sampleDirectories ''/r/Playlists/Jazz/Song!.mp3''
   \<and> \<not> specDirectoryGrammar sampleDirectories ''/r/Playlists/Jazz/Song!.mp3''
   \<and> effects (handleQueue sampleNetwork sampleDirectories DEFAULT_KENKU_CONFIG
        \<lparr>queue = [\<lparr>ev_action = Add, ev_path = ''/r/Playlists/Jazz/Song!.mp3''\<rparr>],
         ACTIVATED = True, effects = []\<rparr>)
     = [Fetch ''http://127.0.0.1:3333/v1/playlist/addTrack''
          \<lparr>req_path = ''playlist/addTrack'', req_method = Put,
           req_body = Some (JObject
             [(''title'', JString ''Song!''),
              (''url'', JString ''file:///r/Playlists/Jazz/Song!.mp3''),
              (''playlistUrl'', JString ''/r/Playlists/Jazz'')])\<rparr>]"
proof -
  have v: "validateFile sampleDirectories ''/r/Playlists/Jazz/Song!.mp3'' = Some ''Song!.mp3''"
    by code_simp
  have "\<not> list_all specItemChar (finalSegment ''/r/Playlists/Jazz/Song!.mp3'')"
    by code_simp
  then have f: "\<not> specFileGrammar sampleDirectories ''/r/Playlists/Jazz/Song!.mp3''"
    using specFileGrammar_final by blast
  have "validateDirectory sampleDirectories ''/r/Playlists/Jazz/Song!.mp3'' = None"
    by code_simp
  then have g: "\<not> specDirectoryGrammar sampleDirectories ''/r/Playlists/Jazz/Song!.mp3''"
    by (simp add: specDirectoryGrammar_validateDirectory)
  have e: "effects (handleQueue sampleNetwork sampleDirectories DEFAULT_KENKU_CONFIG
        \<lparr>queue = [\<lparr>ev_action = Add, ev_path = ''/r/Playlists/Jazz/Song!.mp3''\<rparr>],
         ACTIVATED = True, effects = []\<rparr>)
     = [Fetch ''http://127.0.0.1:3333/v1/playlist/addTrack''
          \<lparr>req_path = ''playlist/addTrack'', req_method = Put,
           req_body = Some (JObject
             [(''title'', JString ''Song!''),
              (''url'', JString ''file:///r/Playlists/Jazz/Song!.mp3''),
              (''playlistUrl'', JString ''/r/Playlists/Jazz'')])\<rparr>]"
    by code_simp
  from v f g e show ?thesis by blast
qed

section \<open>The two sample paths (C5)\<close>

text \<open>
  C5, as the specification states it: the url of the track
  \<open>/r/Playlists/Jazz/Song 1.mp3\<close> is \<open>file://%2Fr%2FPlaylists%2FJazz%2FSong%201.mp3\<close>.
  It is not: \<open>encodeURI\<close> keeps the slashes.
\<close>

theorem sample_paths_counterexample:
  "cleanUrl (prepareFilePath ''/r/Playlists/Jazz/Song 1.mp3'')
     = ''file:///r/Playlists/Jazz/Song%201.mp3''
   \<and> cleanUrl (prepareFilePath ''/r/Playlists/Jazz/Song 1.mp3'')
     \<noteq> ''file://%2Fr%2FPlaylists%2FJazz%2FSong%201.mp3''"
  by code_simp

text \<open>
  C5, amended: with root \<open>/r\<close> and playlists directory \<open>Playlists\<close>, the directory
  \<open>/r/Playlists/Jazz\<close> is validated with the name \<open>Jazz\<close> and added as the playlist
  of that title and url; the file \<open>/r/Playlists/Jazz/Song 1.mp3\<close> is validated
  and added as the track of title \<open>Song 1\<close>, playlist url \<open>/r/Playlists/Jazz\<close> and url
  \<open>file:///r/Playlists/Jazz/Song%201.mp3\<close>: the path after \<open>file://\<close>, with the
  space escaped and the slashes kept.
\<close>

theorem sample_paths:
  "validateDirectory sampleDirectories ''/r/Playlists/Jazz'' = Some ''Jazz''
   \<and> handleQueue net sampleDirectories k
        \<lparr>queue = [\<lparr>ev_action = AddDir, ev_path = ''/r/Playlists/Jazz''\<rparr>],
         ACTIVATED = True, effects = []\<rparr>
     = \<lparr>queue = [], ACTIVATED = True,
        effects = [Fetch (url (host k) (port k) @ ''/playlist/add'')
          \<lparr>req_path = ''playlist/add'', req_method = Put,
           req_body = Some (JObject
             [(''title'', JString ''Jazz''), (''url'', JString ''/r/Playlists/Jazz'')])\<rparr>]\<rparr>
   \<and> validateFile sampleDirectories ''/r/Playlists/Jazz/Song 1.mp3'' = Some ''Song 1.mp3''
   \<and> handleQueue net sampleDirectories k
        \<lparr>queue = [\<lparr>ev_action = Add, ev_path = ''/r/Playlists/Jazz/Song 1.mp3''\<rparr>],
         ACTIVATED = True, effects = []\<rparr>
     = \<lparr>queue = [], ACTIVATED = True,
        effects = [Fetch (url (host k) (port k) @ ''/playlist/addTrack'')
          \<lparr>req_path = ''playlist/addTrack'', req_method = Put,
           req_body = Some (JObject
             [(''title'', JString ''Song 1''),
              (''url'', JString ''file:///r/Playlists/Jazz/Song%201.mp3''),
              (''playlistUrl'', JString ''/r/Playlists/Jazz'')])\<rparr>]\<rparr>"
  by (simp add: handleQueue_def Let_def snd_remote sample_simps eval_simps)

section \<open>The url of the collection of a file (C10)\<close>

lemma occurrences_suffix: "1 \<le> occurrences (a @ f) f"
proof (induction a)
  case Nil
  show ?case by (cases f) simp_all
next
  case (Cons c a)
  then show ?case by simp
qed

lemma replaceEmpty_once:
  "f \<noteq> [] \<Longrightarrow> occurrences (a @ f) f = 1 \<Longrightarrow> replaceEmpty (a @ f) f = a"
proof (induction a)
  case Nil
  then show ?case by (cases f) simp_all
next
  case (Cons c a)
  show ?case
  proof (cases "prefix f (c # a @ f)")
    case True
    with Cons.prems(2) occurrences_suffix [of a f] show ?thesis by simp
  next
    case False
    with Cons show ?thesis by simp
  qed
qed

lemma parentDirectory_append:
  "CHR ''/'' \<notin> set f \<Longrightarrow> parentDirectory (a @ ''/'' @ f) = a"
  using finalSegment_append [of f a] by (simp add: parentDirectory_def)

lemma collection_of_once:
  assumes "validateFile d p = Some f" and "occurrences p f = 1"
  shows "cleanUrl (replaceEmpty p f) = parentDirectory p"
proof -
  from validateFile_split [OF assms(1)]
  obtain a where p: "p = a @ ''/'' @ f" and f: "CHR ''/'' \<notin> set f" "f \<noteq> []" by blast
  from p assms(2) have "occurrences ((a @ ''/'') @ f) f = 1" by simp
  with f(2) have "replaceEmpty ((a @ ''/'') @ f) f = a @ ''/''" by (rule replaceEmpty_once)
  with p have "cleanUrl (replaceEmpty p f) = a" by (simp add: cleanUrl_snoc_slash)
  with p parentDirectory_append [OF f(1), of a] show ?thesis by simp
qed

lemma file_event_request:
  assumes "queue w = ev # rest" and "ACTIVATED w"
    and "ev_action ev = Add \<or> ev_action ev = Unlink"
    and "validateFile d (ev_path ev) = Some f"
  shows "\<exists>target req. handleQueue net d k w =
           w\<lparr>queue := rest, effects := effects w @ [Fetch target req]\<rparr>
         \<and> collectionUrl req = Some (JString (cleanUrl (replaceEmpty (ev_path ev) f)))"
proof -
  have sent: "\<exists>target req.
      w\<lparr>queue := rest, effects := effects w @ [Fetch t r]\<rparr>
        = w\<lparr>queue := rest, effects := effects w @ [Fetch target req]\<rparr>
      \<and> collectionUrl req = Some u" if "collectionUrl r = Some u" for t r u
    using that by blast
  from assms(4) have "f \<noteq> []" by (rule validateFile_nonempty)
  with assms(1,2,4) have
    "ev_action ev = Add \<Longrightarrow> ?thesis" and "ev_action ev = Unlink \<Longrightarrow> ?thesis"
    by (simp_all add: handleQueue_def Let_def snd_remote)
       (intro conjI impI sent; simp add: collectionUrl_def)+
  with assms(3) show ?thesis by blast
qed

text \<open>
  C10: for a file event that is dispatched (gate open, \<open>validateFile\<close> gives the
  item name), the request carries as \<open>playlistUrl\<close> or \<open>soundboardUrl\<close> the path
  with the first occurrence of the item name deleted and one trailing slash
  stripped. When the item name occurs exactly once in the path, this is the path
  of the parent directory. Otherwise it need not be: in \<open>/r/Playlists/a/a\<close> the
  first occurrence of \<open>a\<close> is inside \<open>Playlists\<close>.
\<close>

theorem collection_url_by_replace:
  assumes "plainDirectories d" and "queue w = ev # rest" and "ACTIVATED w"
    and "ev_action ev = Add \<or> ev_action ev = Unlink"
    and "validateFile d (ev_path ev) = Some f"
  shows "(\<exists>target req. handleQueue net d k w =
             w\<lparr>queue := rest, effects := effects w @ [Fetch target req]\<rparr>
           \<and> collectionUrl req = Some (JString (cleanUrl (replaceEmpty (ev_path ev) f))))
    \<and> (occurrences (ev_path ev) f = 1 \<longrightarrow>
          cleanUrl (replaceEmpty (ev_path ev) f) = parentDirectory (ev_path ev))
    \<and> (\<exists>p g. validateFile sampleDirectories p = Some g \<and> occurrences p g \<noteq> 1
          \<and> cleanUrl (replaceEmpty p g) \<noteq> parentDirectory p)"
proof -
  have "validateFile sampleDirectories ''/r/Playlists/a/a'' = Some ''a''
      \<and> occurrences ''/r/Playlists/a/a'' ''a'' \<noteq> 1
      \<and> cleanUrl (replaceEmpty ''/r/Playlists/a/a'' ''a'') \<noteq> parentDirectory ''/r/Playlists/a/a''"
    by code_simp
  then have "\<exists>p g. validateFile sampleDirectories p = Some g \<and> occurrences p g \<noteq> 1
          \<and> cleanUrl (replaceEmpty p g) \<noteq> parentDirectory p" by blast
  with file_event_request [OF assms(2-5)] collection_of_once [OF assms(5)]
  show ?thesis by blast
qed

text \<open>C10 at the removal of the sound \<open>/r/Soundboards/Combat/Roar.wav\<close>.\<close>

theorem collection_url_by_replace_witness:
  "(\<exists>target req. handleQueue sampleNetwork sampleDirectories DEFAULT_KENKU_CONFIG
        \<lparr>queue = [\<lparr>ev_action = Unlink, ev_path = ''/r/Soundboards/Combat/Roar.wav''\<rparr>],
         ACTIVATED = True, effects = []\<rparr>
      = \<lparr>queue = [], ACTIVATED = True, effects = [Fetch target req]\<rparr>
      \<and> collectionUrl req = Some (JString ''/r/Soundboards/Combat''))
   \<and> parentDirectory ''/r/Soundboards/Combat/Roar.wav'' = ''/r/Soundboards/Combat''"
proof -
  let ?p = "''/r/Soundboards/Combat/Roar.wav''"
  let ?ev = "\<lparr>ev_action = Unlink, ev_path = ?p\<rparr>"
  let ?w = "\<lparr>queue = [?ev], ACTIVATED = True, effects = []\<rparr>"
  have v: "validateFile sampleDirectories (ev_path ?ev) = Some ''Roar.wav''"
    by code_simp
  have c: "cleanUrl (replaceEmpty ?p ''Roar.wav'') = ''/r/Soundboards/Combat''"
    by code_simp
  have o: "occurrences ?p ''Roar.wav'' = 1"
    by code_simp
  have pl: "plainDirectories sampleDirectories" by (simp add: sample_simps)
  have q: "queue ?w = ?ev # []" and a: "ACTIVATED ?w"
    and k: "ev_action ?ev = Add \<or> ev_action ?ev = Unlink" by simp_all
  note t = collection_url_by_replace [OF pl q a k v, of sampleNetwork DEFAULT_KENKU_CONFIG]
  from t have "\<exists>target req. handleQueue sampleNetwork sampleDirectories DEFAULT_KENKU_CONFIG ?w
        = ?w\<lparr>queue := [], effects := effects ?w @ [Fetch target req]\<rparr>
      \<and> collectionUrl req = Some (JString (cleanUrl (replaceEmpty (ev_path ?ev) ''Roar.wav'')))"
    by (rule conjunct1)
  with c have first: "\<exists>target req.
      handleQueue sampleNetwork sampleDirectories DEFAULT_KENKU_CONFIG ?w
        = \<lparr>queue = [], ACTIVATED = True, effects = [Fetch target req]\<rparr>
      \<and> collectionUrl req = Some (JString ''/r/Soundboards/Combat'')"
    by simp
  from t o have "cleanUrl (replaceEmpty (ev_path ?ev) ''Roar.wav'') = parentDirectory (ev_path ?ev)"
    by simp
  with c have "parentDirectory ?p = ''/r/Soundboards/Combat''" by simp
  with first show ?thesis by (rule conjI)
qed

section \<open>Purge (C7)\<close>






























section \<open>The title of an item (C4)\<close>

lemma includesStr_char: "includesStr s [c] = (c \<in> set s)"
  by (induction s) auto

lemma indexOf_char:
  "c \<in> set s \<Longrightarrow> indexOf s [c] = int (length (takeWhile (\<lambda>x. x \<noteq> c) s))"
  by (induction s) (auto simp add: Let_def)

lemma dropWhile_all: "(\<forall>x\<in>set (dropWhile P s). P x) \<longleftrightarrow> dropWhile P s = []"
proof
  assume all: "\<forall>x\<in>set (dropWhile P s). P x"
  show "dropWhile P s = []"
  proof (rule ccontr)
    assume ne: "dropWhile P s \<noteq> []"
    then have "\<not> P (hd (dropWhile P s))" by (rule hd_dropWhile)
    moreover from ne have "hd (dropWhile P s) \<in> set (dropWhile P s)" by (rule hd_in_set)
    ultimately show False using all by blast
  qed
next
  assume "dropWhile P s = []"
  then show "\<forall>x\<in>set (dropWhile P s). P x" by (auto dest: set_dropWhileD)
qed

lemma trim_Nil_iff: "trim s = [] \<longleftrightarrow> list_all isWhite s"
proof -
  have "trim s = [] \<longleftrightarrow> (\<forall>x\<in>set (dropWhile isWhite s). isWhite x)"
    by (simp add: trim_def dropWhile_eq_Nil_conv)
  also have "\<dots> \<longleftrightarrow> dropWhile isWhite s = []"
    by (rule dropWhile_all)
  also have "\<dots> \<longleftrightarrow> list_all isWhite s"
    by (simp add: dropWhile_eq_Nil_conv list_all_iff)
  finally show ?thesis .
qed

lemma dropWhile_head: "s \<noteq> [] \<Longrightarrow> \<not> P (hd s) \<Longrightarrow> dropWhile P s = s"
  by (cases s) simp_all

lemma trim_fixed:
  assumes "s \<noteq> []" and "\<not> isWhite (hd s)" and "\<not> isWhite (last s)"
  shows "trim s = s"
proof -
  from assms(1,3) have "dropWhile isWhite (rev s) = rev s"
    by (intro dropWhile_head) (simp_all add: hd_rev)
  with assms(1,2) show ?thesis by (simp add: trim_def dropWhile_head)
qed

lemma take_trim_right:
  assumes "\<not> isWhite c"
  shows "take (length a) (rev (dropWhile isWhite (rev (a @ c # b)))) = a"
  using assms by (simp add: dropWhile_append3)

lemma all_white_trim: "list_all isWhite (trim s) = list_all isWhite s"
proof (cases "list_all isWhite s")
  case True
  then have "trim s = []" by (simp add: trim_Nil_iff)
  with True show ?thesis by simp
next
  case False
  let ?t = "dropWhile isWhite s"
  let ?u = "dropWhile isWhite (rev ?t)"
  from False have t: "?t \<noteq> []" by (simp add: dropWhile_eq_Nil_conv list_all_iff)
  then have "\<not> isWhite (hd ?t)" by (rule hd_dropWhile)
  moreover from t have "hd ?t \<in> set (rev ?t)" by simp
  ultimately have "\<not> (\<forall>x\<in>set (rev ?t). isWhite x)" by blast
  then have "?u \<noteq> []" by (simp only: dropWhile_eq_Nil_conv) simp
  then have "\<not> isWhite (hd ?u)" and "hd ?u \<in> set ?u"
    by (rule hd_dropWhile, rule hd_in_set)
  then have "\<not> list_all isWhite (trim s)"
    by (auto simp add: trim_def list_all_iff)
  with False show ?thesis by simp
qed

lemma dot_not_white: "\<not> isWhite (CHR ''.'')"
  by (simp add: isWhite_def between_def code_def)

lemma removeFileType_plain:
  assumes "CHR ''.'' \<notin> set name"
  shows "removeFileType name = (if list_all isWhite name then ''UnknownTitle'' else trim name)"
proof -
  have "trim (trim name) = [] \<longleftrightarrow> list_all isWhite name"
    by (simp add: trim_Nil_iff all_white_trim)
  with assms show ?thesis
    by (simp add: removeFileType_def includesStr_char)
qed

lemma removeFileType_dotted:
  assumes "CHR ''.'' \<in> set name" and "\<not> isWhite (hd name)"
  shows "removeFileType name = specTitle name"
proof -
  let ?t = "takeWhile (\<lambda>x. x \<noteq> CHR ''.'') name"
  from assms(1) have ne: "name \<noteq> []" by auto
  let ?r = "dropWhile (\<lambda>x. x \<noteq> CHR ''.'') name"
  from assms(1) have r: "?r \<noteq> []" by (simp add: dropWhile_eq_Nil_conv)
  then have "\<not> hd ?r \<noteq> CHR ''.''" by (rule hd_dropWhile)
  with r have "?r = CHR ''.'' # tl ?r" by (cases ?r) simp_all
  moreover have "name = ?t @ ?r" by simp
  ultimately have name: "name = ?t @ CHR ''.'' # tl ?r" by simp
  have "trim name = rev (dropWhile isWhite (rev name))"
    using ne assms(2) by (simp add: trim_def dropWhile_head)
  then have "take (length ?t) (trim name) = take (length ?t) (rev (dropWhile isWhite (rev (?t @ CHR ''.'' # tl ?r))))"
    using name by simp
  also have "\<dots> = ?t" using dot_not_white by (rule take_trim_right)
  finally have clean: "slice0 (trim name) (indexOf name ''.'') = ?t"
    using assms(1) by (simp add: slice0_def indexOf_char)
  have "trim ?t = [] \<longleftrightarrow> list_all isWhite ?t" by (rule trim_Nil_iff)
  with clean assms(1) show ?thesis
    by (simp add: removeFileType_def specTitle_def includesStr_char Let_def)
qed

lemma removeFileType_tidy:
  assumes "name \<noteq> []" and "\<not> isWhite (hd name)" and "\<not> isWhite (last name)"
  shows "removeFileType name = specTitle name"
proof (cases "CHR ''.'' \<in> set name")
  case True
  then show ?thesis using assms(2) by (rule removeFileType_dotted)
next
  case False
  then have t: "takeWhile (\<lambda>x. x \<noteq> CHR ''.'') name = name"
    by (auto simp add: takeWhile_eq_all_conv)
  from assms(1,2) have w: "\<not> list_all isWhite name" by (cases name) simp_all
  have "specTitle name = name"
    unfolding specTitle_def Let_def t using w by simp
  moreover from assms have "trim name = name" by (rule trim_fixed)
  ultimately show ?thesis using False w
    by (simp add: removeFileType_plain)
qed

text \<open>
  C4, as the specification states it: the title is the final segment cut at its
  first dot. It is not for a name without a dot that ends in a space:
  \<open>removeFileType\<close> trims such a name.
\<close>

theorem derived_title_counterexample:
  "validateFile sampleDirectories ''/r/Playlists/Jazz/Song '' = Some ''Song ''
   \<and> removeFileType ''Song '' = ''Song''
   \<and> specTitle (finalSegment ''/r/Playlists/Jazz/Song '') = ''Song ''"
  by code_simp

text \<open>
  C4, amended: for a valid item path the item name is the final segment, and its
  title is
  \<^item> the name with the white space at both ends removed, when the name holds no dot;
  \<^item> the part of the name before its first dot, when the name holds a dot and does
    not begin with white space;

  and the placeholder \<open>UnknownTitle\<close> when that is empty or white space only. So the
  title is the one of the specification for every name that neither begins nor
  ends with white space. (A name with a dot that begins with white space is left
  out: see \<open>removeFileType_leading_space\<close> below.)
\<close>

theorem derived_title:
  assumes "plainDirectories d" and "validateFile d path = Some name"
  shows "name = finalSegment path
    \<and> (CHR ''.'' \<notin> set name \<longrightarrow>
         removeFileType name = (if list_all isWhite name then ''UnknownTitle'' else trim name))
    \<and> (CHR ''.'' \<in> set name \<and> \<not> isWhite (hd name) \<longrightarrow>
         removeFileType name = specTitle name)
    \<and> (\<not> isWhite (hd name) \<and> \<not> isWhite (last name) \<longrightarrow>
         removeFileType name = specTitle name)"
proof -
  from validateFile_split [OF assms(2)] obtain a where
    p: "path = a @ ''/'' @ name" and s: "CHR ''/'' \<notin> set name" and ne: "name \<noteq> []" by blast
  from finalSegment_append [OF s, of a] p have "name = finalSegment path" by simp
  with ne show ?thesis
    using removeFileType_plain [of name] removeFileType_dotted [of name]
      removeFileType_tidy [of name]
    by blast
qed

text \<open>The amended C4 at \<open>/r/Playlists/Jazz/Song 1.mp3\<close>.\<close>

theorem derived_title_witness:
  "removeFileType ''Song 1.mp3'' = ''Song 1''
   \<and> finalSegment ''/r/Playlists/Jazz/Song 1.mp3'' = ''Song 1.mp3''"
proof -
  have v: "validateFile sampleDirectories ''/r/Playlists/Jazz/Song 1.mp3'' = Some ''Song 1.mp3''"
    by code_simp
  have pl: "plainDirectories sampleDirectories" by (simp add: sample_simps)
  have w: "\<not> isWhite (hd ''Song 1.mp3'')" by (simp add: isWhite_def between_def code_def)
  have t: "specTitle ''Song 1.mp3'' = ''Song 1''" by code_simp
  from derived_title [OF pl v] w have
    "removeFileType ''Song 1.mp3'' = specTitle ''Song 1.mp3''"
    and "''Song 1.mp3'' = finalSegment ''/r/Playlists/Jazz/Song 1.mp3''" by simp_all
  with t show ?thesis by simp
qed

text \<open>
  For a name with a dot, \<open>removeFileType\<close> takes the position of the dot in the
  name as it is and cuts the trimmed name there. White space at the start of the
  name shifts the cut to the right by its length: the title of \<open> Song.mp3\<close> is
  \<open>Song.\<close>.
\<close>

lemma removeFileType_leading_space:
  "validateFile sampleDirectories ''/r/Playlists/Jazz/ Song.mp3'' = Some '' Song.mp3''
   \<and> removeFileType '' Song.mp3'' = ''Song.''
   \<and> specTitle '' Song.mp3'' = '' Song''"
  by code_simp

end
